theory Spec2Isabelle
  imports
    Complex_Main
    "HOL-Library.List_Lexorder"
    "HOL-Library.Char_ord"
    "HOL-Library.Multiset"
begin

section \<open>Data model\<close>

text \<open>
  The script \<^verbatim>\<open>drive_analysis.py\<close> loads a table with pandas, analyses one column of it and
  writes three files. A table cell is a number, a string or missing. A pandas column has
  one dtype: a numeric column holds numbers and NaN; an object column holds any values,
  strings as a rule, numbers and strings side by side when the file mixes them. The
  missing cell is \<open>None\<close>. Numbers are exact reals here: the rounding of floating-point
  arithmetic is not part of this model.
\<close>

datatype scalar = Num real | Str string

datatype column = NumCol "real option list" | ObjCol "scalar option list"

type_synonym table = "(string \<times> column) list"

datatype error =
    KeyError | IndexError | ValueError | TypeError | OSError | FileNotFoundError | ParserError
  | RenderError

fun cells :: "column \<Rightarrow> scalar option list" where
  "cells (NumCol c) = map (map_option Num) c"
| "cells (ObjCol c) = c"

fun dropna :: "'a option list \<Rightarrow> 'a list" where
  "dropna [] = []"
| "dropna (None # xs) = dropna xs"
| "dropna (Some x # xs) = x # dropna xs"

definition nonmissing :: "column \<Rightarrow> scalar list" where
  "nonmissing col = dropna (cells col)"

text \<open>How often a value occurs in a column.\<close>

definition occurrences :: "column \<Rightarrow> scalar \<Rightarrow> nat" where
  "occurrences col v = count_list (cells col) (Some v)"

text \<open>
  The order in which values of one kind are sorted: numbers by value, strings
  lexicographically by character code. Python does not compare a number with a string.
\<close>

fun is_num :: "scalar \<Rightarrow> bool" where
  "is_num (Num _) = True"
| "is_num (Str _) = False"

fun scalar_le :: "scalar \<Rightarrow> scalar \<Rightarrow> bool" where
  "scalar_le (Num a) (Num b) = (a \<le> b)"
| "scalar_le (Str a) (Str b) = (a \<le> b)"
| "scalar_le _ _ = False"

section \<open>The mode of a column\<close>

text \<open>
  \<^verbatim>\<open>Series.mode()\<close> of pandas (default \<^verbatim>\<open>dropna=True\<close>): the missing cells are dropped,
  the values reaching the highest count are collected, and the result is returned sorted
  in ascending order. It is empty when no cell is left. For a numeric column:
\<close>

definition max_count :: "'a list \<Rightarrow> nat" where
  "max_count xs = fold max (map (count_list xs) xs) 0"

definition series_mode :: "'a::linorder option list \<Rightarrow> 'a list" where
  "series_mode col =
     (let xs = dropna col; m = max_count xs
      in sort (remdups (filter (\<lambda>x. count_list xs x = m) xs)))"

text \<open>
  For an object column the values reaching the highest count are collected in the order
  in which the column first shows them, then sorted. Sorting compares the values with
  each other: it raises TypeError when numbers and strings are both among them, and
  pandas then warns and returns the collected values as they are.
\<close>

fun nums_of :: "scalar list \<Rightarrow> real list" where
  "nums_of [] = []"
| "nums_of (Num r # xs) = r # nums_of xs"
| "nums_of (Str s # xs) = nums_of xs"

fun strs_of :: "scalar list \<Rightarrow> string list" where
  "strs_of [] = []"
| "strs_of (Num r # xs) = strs_of xs"
| "strs_of (Str s # xs) = s # strs_of xs"

definition sort_modes :: "scalar list \<Rightarrow> error + scalar list" where
  "sort_modes ms =
     (if strs_of ms = [] then Inr (map Num (sort (nums_of ms)))
      else if nums_of ms = [] then Inr (map Str (sort (strs_of ms)))
      else Inl TypeError)"

definition first_seen :: "'a list \<Rightarrow> 'a list" where
  "first_seen xs = rev (remdups (rev xs))"

definition object_mode :: "scalar option list \<Rightarrow> scalar list" where
  "object_mode col =
     (let xs = dropna col; m = max_count xs;
          modes = first_seen (filter (\<lambda>x. count_list xs x = m) xs)
      in case sort_modes modes of Inr sorted_modes \<Rightarrow> sorted_modes | Inl _ \<Rightarrow> modes)"

fun mode_series :: "column \<Rightarrow> scalar list" where
  "mode_series (NumCol c) = map Num (series_mode c)"
| "mode_series (ObjCol c) = object_mode c"

text \<open>\<^verbatim>\<open>.iloc[i]\<close> raises IndexError past the end.\<close>

definition iloc :: "'a list \<Rightarrow> nat \<Rightarrow> error + 'a" where
  "iloc xs i = (if i < length xs then Inr (xs ! i) else Inl IndexError)"

text \<open>
  Line 69 of the source:
  \<^verbatim>\<open>mode = df[column].mode().iloc[0] if not df[column].mode().empty else None\<close>
\<close>

definition selected_mode :: "column \<Rightarrow> error + scalar option" where
  "selected_mode col =
     (if mode_series col \<noteq> []
      then (case iloc (mode_series col) 0 of Inl e \<Rightarrow> Inl e | Inr v \<Rightarrow> Inr (Some v))
      else Inr None)"

text \<open>
  The tie-break as the specification words it: among the values of highest count, the one
  met first in the column's order.
\<close>

definition spec_first_encountered_mode :: "column \<Rightarrow> scalar option" where
  "spec_first_encountered_mode col =
     (let xs = nonmissing col in find (\<lambda>x. count_list xs x = max_count xs) xs)"

section \<open>Descriptive statistics\<close>

text \<open>
  \<^verbatim>\<open>Series.describe()\<close> of a numeric column: the missing cells are dropped, and the result
  is a series of eight labelled numbers. A statistic that is not defined (the mean of no
  value, the deviation of fewer than two) is NaN, here \<open>None\<close>. The deviation is the sample
  deviation (divisor \<open>n - 1\<close>), the quartiles interpolate linearly between the two nearest
  ranks.
\<close>

definition mean :: "real list \<Rightarrow> real option" where
  "mean xs = (if xs = [] then None else Some (sum_list xs / real (length xs)))"

definition std :: "real list \<Rightarrow> real option" where
  "std xs =
     (if length xs < 2 then None
      else let m = sum_list xs / real (length xs)
           in Some (sqrt (sum_list (map (\<lambda>x. (x - m)\<^sup>2) xs) / real (length xs - 1))))"

definition minimum :: "real list \<Rightarrow> real option" where
  "minimum xs = (if xs = [] then None else Some (Min (set xs)))"

definition maximum :: "real list \<Rightarrow> real option" where
  "maximum xs = (if xs = [] then None else Some (Max (set xs)))"

definition quantile :: "real list \<Rightarrow> real \<Rightarrow> real option" where
  "quantile xs q =
     (if xs = [] then None
      else let s = sort xs;
               pos = q * real (length xs - 1);
               lo = nat \<lfloor>pos\<rfloor>;
               hi = min (lo + 1) (length xs - 1)
           in Some (s ! lo + (pos - real lo) * (s ! hi - s ! lo)))"

type_synonym summary = "(string \<times> scalar option) list"

definition describe :: "real option list \<Rightarrow> summary" where
  "describe c =
     (let xs = dropna c
      in [(''count'', Some (Num (real (length xs)))),
          (''mean'', map_option Num (mean xs)),
          (''std'', map_option Num (std xs)),
          (''min'', map_option Num (minimum xs)),
          (''25%'', map_option Num (quantile xs (1 / 4))),
          (''50%'', map_option Num (quantile xs (1 / 2))),
          (''75%'', map_option Num (quantile xs (3 / 4))),
          (''max'', map_option Num (maximum xs))])"

section \<open>Figures\<close>

datatype plot = Hist column nat string | Box string "real option list"

record figure =
  figsize :: "nat \<times> nat"
  content :: plot
  title :: string
  xlabel :: string
  ylabel :: string

section \<open>What the libraries decide\<close>

text \<open>
  The script leaves the printing of numbers, the drawing of figures and the parsing of
  files to pandas, matplotlib and Python. These are parameters of the model:
  \<^item> \<open>fmt_values s i\<close>: what \<^verbatim>\<open>Series.to_string()\<close> prints after the \<open>i\<close>-th label of the
    series \<open>s\<close> (the padding and the formatted number);
  \<^item> \<open>describe_object c\<close>: the text of \<^verbatim>\<open>describe().to_string()\<close> for an object column
    (count, unique, top, freq);
  \<^item> \<open>str_num r\<close>: Python's \<^verbatim>\<open>str\<close> of a number;
  \<^item> \<open>draw fig\<close>: the image data matplotlib encodes for a figure, or the error it raises;
  \<^item> \<open>parse_csv\<close>, \<open>parse_excel\<close>: the tables read from the bytes of a file; a workbook
    is the list of its sheets, by name, in the workbook's order.
\<close>

record lib =
  fmt_values :: "summary \<Rightarrow> nat \<Rightarrow> string"
  describe_object :: "scalar option list \<Rightarrow> string"
  str_num :: "real \<Rightarrow> string"
  draw :: "figure \<Rightarrow> error + string"
  parse_csv :: "string \<Rightarrow> error + table"
  parse_excel :: "string \<Rightarrow> error + (string \<times> table) list"

section \<open>Text of the summary\<close>

definition nl :: string where
  "nl = [CHR 0x0A]"

fun join :: "string \<Rightarrow> string list \<Rightarrow> string" where
  "join sep [] = []"
| "join sep [x] = x"
| "join sep (x # y # ys) = x @ sep @ join sep (y # ys)"

text \<open>\<^verbatim>\<open>Series.to_string()\<close>: one line for each entry, the label first.\<close>

definition to_string :: "lib \<Rightarrow> summary \<Rightarrow> string" where
  "to_string L s = join nl (map (\<lambda>i. fst (s ! i) @ fmt_values L s i) [0..<length s])"

definition summary_block :: "lib \<Rightarrow> column \<Rightarrow> string" where
  "summary_block L col =
     (case col of NumCol c \<Rightarrow> to_string L (describe c) | ObjCol c \<Rightarrow> describe_object L c)"


text \<open>The value in \<^verbatim>\<open>f"Mode: {mode}"\<close>.\<close>

fun py_str :: "lib \<Rightarrow> scalar option \<Rightarrow> string" where
  "py_str L None = ''None''"
| "py_str L (Some (Str s)) = s"
| "py_str L (Some (Num r)) = str_num L r"

section \<open>Paths and files\<close>

text \<open>
  A path is the list of its parts, as \<^verbatim>\<open>pathlib\<close> splits it; the first part of an
  absolute path is \<^verbatim>\<open>/\<close>. The file system holds the directories, the content of each
  regular file, and the lines printed so far.
\<close>

type_synonym path = "string list"

record world =
  dirs :: "path set"
  files :: "path \<rightharpoonup> string"
  stdout :: "string list"

definition joinpath :: "path \<Rightarrow> string \<Rightarrow> path" where
  "joinpath p name = p @ [name]"

definition str_path :: "path \<Rightarrow> string" where
  "str_path p =
     (case p of [] \<Rightarrow> ''.''
      | x # xs \<Rightarrow> if x = ''/'' then ''/'' @ join ''/'' xs else join ''/'' p)"

definition is_dir :: "world \<Rightarrow> path \<Rightarrow> bool" where
  "is_dir w p = (p = [] \<or> p = [''/''] \<or> p \<in> dirs w)"

definition ancestors_and_self :: "path \<Rightarrow> path list" where
  "ancestors_and_self p = map (\<lambda>n. take n p) [1..<Suc (length p)]"

text \<open>
  \<^verbatim>\<open>Path.mkdir(parents=True, exist_ok=True)\<close>: creates the directory and every missing
  parent; a directory that exists is accepted, a regular file on the way is an OSError
  (FileExistsError or NotADirectoryError).
\<close>

definition mkdir :: "path \<Rightarrow> world \<Rightarrow> error + world" where
  "mkdir p w =
     (if \<exists>q \<in> set (ancestors_and_self p). files w q \<noteq> None then Inl OSError
      else Inr (w\<lparr>dirs := dirs w \<union> set (ancestors_and_self p)\<rparr>))"

text \<open>
  Opening a path for writing and writing \<open>s\<close>: an OSError when the path is a directory or
  its parent is none; otherwise the file holds \<open>s\<close>, whatever it held before.
\<close>

definition write_file :: "path \<Rightarrow> string \<Rightarrow> world \<Rightarrow> error + world" where
  "write_file p s w =
     (if is_dir w p \<or> \<not> is_dir w (butlast p) then Inl OSError
      else Inr (w\<lparr>files := (files w)(p \<mapsto> s)\<rparr>))"

definition print :: "string \<Rightarrow> world \<Rightarrow> world" where
  "print line w = w\<lparr>stdout := stdout w @ [line]\<rparr>"

definition png_signature :: string where
  "png_signature = [CHR 0x89, CHR 0x50, CHR 0x4E, CHR 0x47, CHR 0x0D, CHR 0x0A, CHR 0x1A, CHR 0x0A]"

text \<open>
  \<^verbatim>\<open>plt.savefig(path)\<close> with a \<^verbatim>\<open>.png\<close> name: the figure is drawn, then the file is written,
  the eight bytes of the PNG signature first.
\<close>

definition savefig :: "lib \<Rightarrow> figure \<Rightarrow> path \<Rightarrow> world \<Rightarrow> error + world" where
  "savefig L fig p w =
     (case draw L fig of Inl e \<Rightarrow> Inl e | Inr img \<Rightarrow> write_file p (png_signature @ img) w)"

section \<open>The loader\<close>

text \<open>
  \<^verbatim>\<open>Path.suffix\<close>: the last part of the path from its last dot on, when that dot is
  neither the first nor the last character; \<^verbatim>\<open>str.lower\<close> on ASCII letters.
\<close>

definition rfind :: "string \<Rightarrow> char \<Rightarrow> int" where
  "rfind s c = (case filter (\<lambda>i. s ! i = c) (rev [0..<length s]) of [] \<Rightarrow> - 1 | i # _ \<Rightarrow> int i)"

definition path_name :: "path \<Rightarrow> string" where
  "path_name p = (if p = [] \<or> p = [''/''] then [] else last p)"

definition path_suffix :: "path \<Rightarrow> string" where
  "path_suffix p =
     (let name = path_name p; i = rfind name (CHR ''.'')
      in if 0 < i \<and> i < int (length name) - 1 then drop (nat i) name else [])"

definition lower_char :: "char \<Rightarrow> char" where
  "lower_char c =
     (let n = (of_char c :: nat) in if 65 \<le> n \<and> n \<le> 90 then char_of (n + 32) else c)"

definition lower :: "string \<Rightarrow> string" where
  "lower s = map lower_char s"

text \<open>
  What the loader returns: \<^verbatim>\<open>pd.read_csv\<close> gives one DataFrame; \<^verbatim>\<open>pd.read_excel\<close> gives
  one DataFrame for a sheet name, and for \<^verbatim>\<open>sheet_name=None\<close> a dict of all the sheets,
  by name.
\<close>

datatype loaded = Frame table | SheetDict "(string \<times> table) list"

definition read_bytes :: "world \<Rightarrow> path \<Rightarrow> error + string" where
  "read_bytes w p =
     (if is_dir w p then Inl OSError
      else case files w p of None \<Rightarrow> Inl FileNotFoundError | Some bytes \<Rightarrow> Inr bytes)"

definition read_csv :: "lib \<Rightarrow> world \<Rightarrow> path \<Rightarrow> error + loaded" where
  "read_csv L w p =
     (case read_bytes w p of Inl e \<Rightarrow> Inl e
      | Inr bytes \<Rightarrow> (case parse_csv L bytes of Inl e \<Rightarrow> Inl e | Inr t \<Rightarrow> Inr (Frame t)))"

definition read_excel :: "lib \<Rightarrow> world \<Rightarrow> path \<Rightarrow> string option \<Rightarrow> error + loaded" where
  "read_excel L w p sheet_name =
     (case read_bytes w p of Inl e \<Rightarrow> Inl e
      | Inr bytes \<Rightarrow>
         (case parse_excel L bytes of Inl e \<Rightarrow> Inl e
          | Inr sheets \<Rightarrow>
             (case sheet_name of None \<Rightarrow> Inr (SheetDict sheets)
              | Some n \<Rightarrow>
                 (case map_of sheets n of None \<Rightarrow> Inl ValueError
                  | Some t \<Rightarrow> Inr (Frame t)))))"

definition load_dataframe :: "lib \<Rightarrow> world \<Rightarrow> path \<Rightarrow> string option \<Rightarrow> error + loaded" where
  "load_dataframe L w data_path sheet_name =
     (if lower (path_suffix data_path) \<in> {''.xls'', ''.xlsx''}
      then read_excel L w data_path sheet_name
      else read_csv L w data_path)"

section \<open>The analyser\<close>

text \<open>\<^verbatim>\<open>df[column]\<close> raises KeyError for a name that is no column of the table.\<close>

definition getitem :: "table \<Rightarrow> string \<Rightarrow> error + column" where
  "getitem df column = (case map_of df column of None \<Rightarrow> Inl KeyError | Some c \<Rightarrow> Inr c)"

text \<open>
  \<^verbatim>\<open>df.boxplot(column=column)\<close> keeps the numeric columns of the table, raises ValueError
  when there is none, and selects \<^verbatim>\<open>column\<close> among them (KeyError when it is not numeric).
\<close>

definition is_numeric :: "column \<Rightarrow> bool" where
  "is_numeric col = (case col of NumCol _ \<Rightarrow> True | ObjCol _ \<Rightarrow> False)"

definition boxplot :: "table \<Rightarrow> string \<Rightarrow> error + plot" where
  "boxplot df column =
     (let numeric = filter (\<lambda>nc. is_numeric (snd nc)) df
      in if numeric = [] then Inl ValueError
         else case map_of numeric column of
                Some (NumCol c) \<Rightarrow> Inr (Box column c)
              | _ \<Rightarrow> Inl KeyError)"

definition summary_text :: "lib \<Rightarrow> column \<Rightarrow> scalar option \<Rightarrow> string" where
  "summary_text L col mode =
     ''Summary statistics'' @ nl @ summary_block L col @ nl @ nl @ ''Mode: '' @ py_str L mode @ nl"

definition histogram_figure :: "column \<Rightarrow> string \<Rightarrow> figure" where
  "histogram_figure col column =
     \<lparr>figsize = (8, 5), content = Hist col 20 ''black'', title = ''Histogram of '' @ column,
      xlabel = column, ylabel = ''Frequency''\<rparr>"

definition boxplot_figure :: "plot \<Rightarrow> string \<Rightarrow> figure" where
  "boxplot_figure bp column =
     \<lparr>figsize = (6, 5), content = bp, title = ''Box plot of '' @ column,
      xlabel = [], ylabel = column\<rparr>"

text \<open>
  \<^verbatim>\<open>analyse_dataframe(df, column, output_dir)\<close>, statement by statement. An exception ends
  the run and leaves the files written so far.
\<close>

definition analyse_dataframe ::
  "lib \<Rightarrow> table \<Rightarrow> string \<Rightarrow> path \<Rightarrow> world \<Rightarrow> (error + unit) \<times> world" where
  "analyse_dataframe L df column output_dir w0 =
     (case mkdir output_dir w0 of Inl e \<Rightarrow> (Inl e, w0)
      | Inr w1 \<Rightarrow>
     (case getitem df column of Inl e \<Rightarrow> (Inl e, w1)
      | Inr col \<Rightarrow>
     (case selected_mode col of Inl e \<Rightarrow> (Inl e, w1)
      | Inr mode \<Rightarrow>
     (let summary_path = joinpath output_dir ''summary_statistics.txt'' in
     (case write_file summary_path (summary_text L col mode) w1 of Inl e \<Rightarrow> (Inl e, w1)
      | Inr w2 \<Rightarrow>
     (case savefig L (histogram_figure col column) (joinpath output_dir ''histogram.png'') w2 of
        Inl e \<Rightarrow> (Inl e, w2)
      | Inr w3 \<Rightarrow>
     (case boxplot df column of Inl e \<Rightarrow> (Inl e, w3)
      | Inr bp \<Rightarrow>
     (case savefig L (boxplot_figure bp column) (joinpath output_dir ''boxplot.png'') w3 of
        Inl e \<Rightarrow> (Inl e, w3)
      | Inr w4 \<Rightarrow>
        (Inr (),
         print (''Box plot saved to '' @ str_path (joinpath output_dir ''boxplot.png''))
           (print (''Histogram saved to '' @ str_path (joinpath output_dir ''histogram.png''))
              (print (''Summary saved to '' @ str_path summary_path) w4)))))))))))"

section \<open>Properties of the mode\<close>

lemma fold_max_eq: "fold max ys (a::nat) = Max (set (a # ys))"
  by (simp only: Max.set_eq_fold)

lemma max_count_ge: "x \<in> set xs \<Longrightarrow> count_list xs x \<le> max_count xs"
  unfolding max_count_def fold_max_eq by (rule Max_ge) auto

lemma max_count_ge_all: "count_list xs x \<le> max_count xs"
proof (cases "x \<in> set xs")
  case True then show ?thesis by (rule max_count_ge)
next
  case False then show ?thesis by (simp add: count_list_0_iff)
qed

lemma max_count_attained:
  assumes "xs \<noteq> []"
  shows "\<exists>x\<in>set xs. count_list xs x = max_count xs"
proof -
  let ?S = "set (0 # map (count_list xs) xs)"
  have "Max ?S \<in> ?S" by (rule Max_in) auto
  moreover from assms obtain y where y: "y \<in> set xs" by (cases xs) auto
  then have "0 < count_list xs y" using count_list_0_iff[of xs y] by auto
  with max_count_ge[OF y] have "max_count xs \<noteq> 0" by simp
  ultimately show ?thesis
    unfolding max_count_def fold_max_eq by auto
qed

lemma set_series_mode:
  "set (series_mode col) = {x \<in> set (dropna col). count_list (dropna col) x = max_count (dropna col)}"
  by (auto simp: series_mode_def Let_def)

lemma sorted_series_mode: "sorted (series_mode col)"
  by (simp add: series_mode_def Let_def)

lemma distinct_series_mode: "distinct (series_mode col)"
  by (simp add: series_mode_def Let_def)

lemma series_mode_nonempty: "dropna col \<noteq> [] \<Longrightarrow> series_mode col \<noteq> []"
  using max_count_attained[of "dropna col"] set_series_mode[of col]
  by (metis (mono_tags, lifting) empty_iff list.set(1) mem_Collect_eq)

lemma series_mode_empty: "dropna col = [] \<Longrightarrow> series_mode col = []"
  by (simp add: series_mode_def Let_def)

lemma count_list_dropna: "count_list (dropna c) x = count_list c (Some x)"
  by (induction c rule: dropna.induct) auto

lemma series_mode_hd_least:
  assumes "x \<in> set (series_mode col)"
  shows "series_mode col ! 0 \<le> x"
proof -
  from assms obtain y ys where e: "series_mode col = y # ys" by (cases "series_mode col") auto
  with sorted_series_mode[of col] assms show ?thesis by auto
qed

lemma dropna_map: "dropna (map (map_option f) c) = map f (dropna c)"
  by (induction c rule: dropna.induct) auto

lemma series_mode_head:
  fixes c :: "'a::linorder option list"
  assumes ne: "dropna c \<noteq> []"
  shows "0 < count_list c (Some (series_mode c ! 0))"
    and "count_list c (Some v) \<le> count_list c (Some (series_mode c ! 0))"
    and "count_list c (Some v) = count_list c (Some (series_mode c ! 0)) \<Longrightarrow> series_mode c ! 0 \<le> v"
proof -
  let ?m = "series_mode c ! 0"
  have "series_mode c \<noteq> []" using ne by (rule series_mode_nonempty)
  then have "?m \<in> set (series_mode c)" by (simp add: nth_mem)
  then have mem: "?m \<in> set (dropna c)"
    and top: "count_list (dropna c) ?m = max_count (dropna c)"
    by (simp_all add: set_series_mode)
  from mem show pos: "0 < count_list c (Some ?m)"
    using count_list_0_iff[of "dropna c" ?m] by (simp add: count_list_dropna)
  show "count_list c (Some v) \<le> count_list c (Some ?m)"
    using max_count_ge_all[of "dropna c" v] top by (simp add: count_list_dropna)
  assume eq: "count_list c (Some v) = count_list c (Some ?m)"
  with pos have "v \<in> set (dropna c)"
    using count_list_0_iff[of "dropna c" v] by (simp add: count_list_dropna)
  with eq top have "v \<in> set (series_mode c)"
    by (simp add: set_series_mode count_list_dropna)
  then show "?m \<le> v" by (rule series_mode_hd_least)
qed

lemma mset_dropna: "mset (dropna c) = image_mset the (filter_mset (\<lambda>x. x \<noteq> None) (mset c))"
  by (induction c rule: dropna.induct) auto

lemma selected_mode_Num: "dropna c \<noteq> [] \<Longrightarrow> selected_mode (NumCol c) = Inr (Some (Num (series_mode c ! 0)))"
  using series_mode_nonempty[of c] by (simp add: selected_mode_def iloc_def)

lemma first_seen_set: "set (first_seen xs) = set xs"
  by (simp add: first_seen_def)

lemma strs_empty_all_num: "strs_of ms = [] \<Longrightarrow> map Num (nums_of ms) = ms"
  by (induction ms rule: strs_of.induct) auto

lemma nums_empty_all_str: "nums_of ms = [] \<Longrightarrow> map Str (strs_of ms) = ms"
  by (induction ms rule: nums_of.induct) auto

lemma all_num_strs_empty: "\<forall>v\<in>set ms. is_num v \<Longrightarrow> strs_of ms = []"
  by (induction ms rule: strs_of.induct) auto

lemma all_str_nums_empty: "\<forall>v\<in>set ms. \<not> is_num v \<Longrightarrow> nums_of ms = []"
  by (induction ms rule: nums_of.induct) auto

lemma sorted_first_least:
  fixes l :: "'a::linorder list"
  assumes "sorted l" "x \<in> set l"
  shows "l ! 0 \<le> x"
  using assms by (cases l) auto

lemma sort_modes_set:
  assumes "sort_modes ms = Inr s"
  shows "set s = set ms"
proof (cases "strs_of ms = []")
  case True
  with assms have "s = map Num (sort (nums_of ms))" by (simp add: sort_modes_def)
  then have "set s = set (map Num (nums_of ms))" by simp
  with strs_empty_all_num[OF True] show ?thesis by simp
next
  case False
  with assms have n: "nums_of ms = []" and "s = map Str (sort (strs_of ms))"
    by (auto simp: sort_modes_def split: if_splits)
  then have "set s = set (map Str (strs_of ms))" by simp
  with nums_empty_all_str[OF n] show ?thesis by simp
qed

lemma sort_modes_least:
  assumes "sort_modes ms = Inr s" "v \<in> set ms"
  shows "scalar_le (s ! 0) v"
proof (cases "strs_of ms = []")
  case True
  with assms have s: "s = map Num (sort (nums_of ms))" by (simp add: sort_modes_def)
  from assms(2) strs_empty_all_num[OF True] obtain r where
    v: "v = Num r" and r: "r \<in> set (nums_of ms)"
    by (metis (no_types, lifting) imageE list.set_map)
  from r have "sort (nums_of ms) ! 0 \<le> r" by (intro sorted_first_least) simp_all
  moreover from r have "0 < length (sort (nums_of ms))" by (cases "nums_of ms") auto
  ultimately show ?thesis unfolding s v by simp
next
  case False
  with assms have n: "nums_of ms = []" and s: "s = map Str (sort (strs_of ms))"
    by (auto simp: sort_modes_def split: if_splits)
  from assms(2) nums_empty_all_str[OF n] obtain r where
    v: "v = Str r" and r: "r \<in> set (strs_of ms)"
    by (metis (no_types, lifting) imageE list.set_map)
  from r have "sort (strs_of ms) ! 0 \<le> r" by (intro sorted_first_least) simp_all
  moreover from r have "0 < length (sort (strs_of ms))" by (cases "strs_of ms") auto
  ultimately show ?thesis unfolding s v by simp
qed

lemma sort_modes_same_kind:
  assumes "\<forall>v\<in>set ms. is_num v = is_num m"
  shows "\<exists>s. sort_modes ms = Inr s"
proof (cases "is_num m")
  case True
  with assms have "strs_of ms = []" by (intro all_num_strs_empty) simp
  then show ?thesis by (simp add: sort_modes_def)
next
  case False
  with assms have "nums_of ms = []" by (intro all_str_nums_empty) simp
  then show ?thesis by (simp add: sort_modes_def)
qed

lemma set_object_mode:
  "set (object_mode c) = {x \<in> set (dropna c). count_list (dropna c) x = max_count (dropna c)}"
  by (auto simp: object_mode_def Let_def first_seen_set split: sum.splits dest: sort_modes_set)

lemma object_mode_nonempty: "dropna c \<noteq> [] \<Longrightarrow> object_mode c \<noteq> []"
  using max_count_attained[of "dropna c"] set_object_mode[of c]
  by (metis (mono_tags, lifting) empty_iff list.set(1) mem_Collect_eq)

lemma object_mode_empty: "dropna c = [] \<Longrightarrow> object_mode c = []"
  using set_object_mode[of c] by simp

lemma object_mode_least:
  assumes kind: "\<forall>v. v \<in> set (dropna c) \<and> count_list (dropna c) v = max_count (dropna c)
                  \<longrightarrow> is_num v = is_num m"
    and v: "v \<in> set (dropna c)" "count_list (dropna c) v = max_count (dropna c)"
  shows "scalar_le (object_mode c ! 0) v"
proof -
  let ?modes = "first_seen (filter (\<lambda>x. count_list (dropna c) x = max_count (dropna c)) (dropna c))"
  from kind have "\<forall>v\<in>set ?modes. is_num v = is_num m" by (simp add: first_seen_set)
  then obtain s where s: "sort_modes ?modes = Inr s" using sort_modes_same_kind by blast
  then have "object_mode c = s" by (simp add: object_mode_def Let_def)
  moreover from v have "v \<in> set ?modes" by (simp add: first_seen_set)
  ultimately show ?thesis using sort_modes_least[OF s] by simp
qed

lemma occ_Obj: "occurrences (ObjCol c) v = count_list (dropna c) v"
  by (simp add: occurrences_def count_list_dropna)

lemma occ_Num_Num: "occurrences (NumCol c) (Num r) = count_list (dropna c) r"
  unfolding occurrences_def count_list_dropna by (induction c) auto

lemma occ_Num_Str: "occurrences (NumCol c) (Str s) = 0"
  unfolding occurrences_def by (induction c) auto

lemma selected_mode_Obj:
  "dropna c \<noteq> [] \<Longrightarrow> selected_mode (ObjCol c) = Inr (Some (object_mode c ! 0))"
  using object_mode_nonempty[of c] by (simp add: selected_mode_def iloc_def)


lemma selected_mode_empty: "nonmissing col = [] \<Longrightarrow> selected_mode col = Inr None"
  by (cases col)
    (simp_all add: nonmissing_def dropna_map series_mode_empty object_mode_empty selected_mode_def)

lemma mode_characterised:
  assumes "nonmissing col \<noteq> []"
  shows "\<exists>m. selected_mode col = Inr (Some m) \<and> 0 < occurrences col m
           \<and> (\<forall>v. occurrences col v \<le> occurrences col m)
           \<and> ((\<forall>v. occurrences col v = occurrences col m \<longrightarrow> is_num v = is_num m)
                \<longrightarrow> (\<forall>v. occurrences col v = occurrences col m \<longrightarrow> scalar_le m v))"
proof (cases col)
  case (NumCol c)
  with assms have ne: "dropna c \<noteq> []" by (simp add: nonmissing_def dropna_map)
  let ?m = "Num (series_mode c ! 0)"
  have a: "0 < occurrences col ?m" using series_mode_head(1)[OF ne] NumCol
    by (simp add: occ_Num_Num count_list_dropna)
  have b: "occurrences col v \<le> occurrences col ?m" for v
    using series_mode_head(2)[OF ne] NumCol
    by (cases v) (simp_all add: occ_Num_Num occ_Num_Str count_list_dropna)
  have c: "occurrences col v = occurrences col ?m \<Longrightarrow> scalar_le ?m v" for v
    using series_mode_head(3)[OF ne] a NumCol
    by (cases v) (auto simp: occ_Num_Num occ_Num_Str count_list_dropna)
  from c have c': "(\<forall>v. occurrences col v = occurrences col ?m \<longrightarrow> is_num v = is_num ?m)
                \<longrightarrow> (\<forall>v. occurrences col v = occurrences col ?m \<longrightarrow> scalar_le ?m v)"
    by simp
  have s: "selected_mode col = Inr (Some ?m)" unfolding NumCol using ne by (rule selected_mode_Num)
  from a b have b': "\<forall>v. occurrences col v \<le> occurrences col ?m" by simp
  from s a b' c' show ?thesis by (intro exI[of _ ?m] conjI)
next
  case (ObjCol c)
  with assms have ne: "dropna c \<noteq> []" by (simp add: nonmissing_def)
  let ?m = "object_mode c ! 0"
  have "object_mode c \<noteq> []" using ne by (rule object_mode_nonempty)
  then have "?m \<in> set (object_mode c)" by (simp add: nth_mem)
  then have mem: "?m \<in> set (dropna c)"
    and top: "count_list (dropna c) ?m = max_count (dropna c)"
    by (simp_all add: set_object_mode)
  have a: "0 < occurrences col ?m"
    using mem count_list_0_iff[of "dropna c" ?m] ObjCol by (simp add: occ_Obj)
  have b: "occurrences col v \<le> occurrences col ?m" for v
    using max_count_ge_all[of "dropna c" v] top ObjCol by (simp add: occ_Obj)
  have c: "\<forall>v. occurrences col v = occurrences col ?m \<longrightarrow> scalar_le ?m v"
    if kind: "\<forall>v. occurrences col v = occurrences col ?m \<longrightarrow> is_num v = is_num ?m"
  proof (intro allI impI)
    fix v assume eq: "occurrences col v = occurrences col ?m"
    with top ObjCol have vt: "count_list (dropna c) v = max_count (dropna c)"
      by (simp add: occ_Obj)
    with a eq ObjCol have vm: "v \<in> set (dropna c)"
      using count_list_0_iff[of "dropna c" v] by (simp add: occ_Obj)
    have "\<forall>u. u \<in> set (dropna c) \<and> count_list (dropna c) u = max_count (dropna c)
                  \<longrightarrow> is_num u = is_num ?m"
    proof (intro allI impI)
      fix u assume "u \<in> set (dropna c) \<and> count_list (dropna c) u = max_count (dropna c)"
      with top have "occurrences col u = occurrences col ?m" unfolding ObjCol occ_Obj by simp
      with kind show "is_num u = is_num ?m" by blast
    qed
    then show "scalar_le ?m v" using vm vt by (rule object_mode_least)
  qed
  from c have c': "(\<forall>v. occurrences col v = occurrences col ?m \<longrightarrow> is_num v = is_num ?m)
                \<longrightarrow> (\<forall>v. occurrences col v = occurrences col ?m \<longrightarrow> scalar_le ?m v)"
    by (rule impI)
  have s: "selected_mode col = Inr (Some ?m)" unfolding ObjCol using ne by (rule selected_mode_Obj)
  from a b have b': "\<forall>v. occurrences col v \<le> occurrences col ?m" by simp
  from s a b' c' show ?thesis by (intro exI[of _ ?m] conjI)
qed

lemma selected_mode_total: "\<exists>r. selected_mode col = Inr r"
  by (simp add: selected_mode_def iloc_def)

lemma occurrences_perm:
  "mset (cells col') = mset (cells col) \<Longrightarrow> occurrences col' v = occurrences col v"
  unfolding occurrences_def by (metis count_mset)

lemma nonmissing_perm:
  assumes "mset (cells col') = mset (cells col)" "nonmissing col \<noteq> []"
  shows "nonmissing col' \<noteq> []"
proof -
  from assms(1) have "mset (nonmissing col') = mset (nonmissing col)"
    by (simp add: nonmissing_def mset_dropna)
  with assms(2) show ?thesis by (metis mset_zero_iff)
qed

lemma scalar_le_antisym: "scalar_le a b \<Longrightarrow> scalar_le b a \<Longrightarrow> a = b"
  by (cases a; cases b) auto

lemma selected_mode_perm:
  assumes ne: "nonmissing col \<noteq> []"
    and m: "selected_mode col = Inr (Some m)"
    and kind: "\<forall>v. occurrences col v = occurrences col m \<longrightarrow> is_num v = is_num m"
    and perm: "mset (cells col') = mset (cells col)"
  shows "selected_mode col' = Inr (Some m)"
proof -
  have occ: "occurrences col' v = occurrences col v" for v
    using perm by (rule occurrences_perm)
  from mode_characterised[OF ne] obtain m0 where
    m0: "selected_mode col = Inr (Some m0)" and
    top0: "\<forall>v. occurrences col v \<le> occurrences col m0" and
    least0: "(\<forall>v. occurrences col v = occurrences col m0 \<longrightarrow> is_num v = is_num m0)
                \<longrightarrow> (\<forall>v. occurrences col v = occurrences col m0 \<longrightarrow> scalar_le m0 v)"
    by blast
  from m0 m have mm: "m0 = m" by simp
  from top0 have top: "\<forall>v. occurrences col v \<le> occurrences col m" unfolding mm .
  from least0 kind have least: "\<forall>v. occurrences col v = occurrences col m \<longrightarrow> scalar_le m v"
    unfolding mm by (rule mp)
  note ch = mode_characterised[OF nonmissing_perm[OF perm ne], unfolded occ]
  from ch obtain m' where
    m': "selected_mode col' = Inr (Some m')" and
    top': "\<forall>v. occurrences col v \<le> occurrences col m'" and
    least': "(\<forall>v. occurrences col v = occurrences col m' \<longrightarrow> is_num v = is_num m')
                \<longrightarrow> (\<forall>v. occurrences col v = occurrences col m' \<longrightarrow> scalar_le m' v)"
    by blast
  from top top' have eq: "occurrences col m' = occurrences col m" by (simp add: le_antisym)
  with kind have km: "is_num m' = is_num m" by blast
  from kind have "\<forall>v. occurrences col v = occurrences col m' \<longrightarrow> is_num v = is_num m'"
    unfolding eq km .
  with least' have "\<forall>v. occurrences col v = occurrences col m' \<longrightarrow> scalar_le m' v" by (rule mp)
  with eq have "scalar_le m' m" by (simp only: simp_thms)
  moreover from least eq have "scalar_le m m'" by blast
  ultimately have "m' = m" by (rule scalar_le_antisym)
  with m' show ?thesis by simp
qed

text \<open>
  Claim C1, as the code has it. For a column with at least one value that is not missing,
  the mode that \<^verbatim>\<open>analyse_dataframe\<close> computes is a value of the highest count. When the
  values that reach this count are all numbers or all strings, it is the smallest of them
  (not the one met first), and reordering the cells of the column does not change it;
  nothing is said of the choice among tied values that mix numbers and strings. A value
  that occurs strictly more often than every other value is the mode.
\<close>

theorem mode_most_frequent_ties_smallest:
  assumes "nonmissing col \<noteq> []"
  shows "(\<exists>m. selected_mode col = Inr (Some m) \<and> 0 < occurrences col m
            \<and> (\<forall>v. occurrences col v \<le> occurrences col m)
            \<and> ((\<forall>v. occurrences col v = occurrences col m \<longrightarrow> is_num v = is_num m)
                 \<longrightarrow> (\<forall>v. occurrences col v = occurrences col m \<longrightarrow> scalar_le m v)
                   \<and> (\<forall>col'. mset (cells col') = mset (cells col)
                          \<longrightarrow> selected_mode col' = Inr (Some m))))
       \<and> (\<forall>w. (\<forall>v. v \<noteq> w \<longrightarrow> occurrences col v < occurrences col w)
              \<longrightarrow> selected_mode col = Inr (Some w))"
proof (rule conjI)
  from mode_characterised[OF assms] obtain m where
    m: "selected_mode col = Inr (Some m)" and pos: "0 < occurrences col m" and
    top: "\<forall>v. occurrences col v \<le> occurrences col m" and
    least: "(\<forall>v. occurrences col v = occurrences col m \<longrightarrow> is_num v = is_num m)
                \<longrightarrow> (\<forall>v. occurrences col v = occurrences col m \<longrightarrow> scalar_le m v)"
    by blast
  have perm: "\<forall>col'. mset (cells col') = mset (cells col) \<longrightarrow> selected_mode col' = Inr (Some m)"
    if "\<forall>v. occurrences col v = occurrences col m \<longrightarrow> is_num v = is_num m"
    using selected_mode_perm[OF assms m that] by blast
  from least perm have
    both: "(\<forall>v. occurrences col v = occurrences col m \<longrightarrow> is_num v = is_num m)
                 \<longrightarrow> (\<forall>v. occurrences col v = occurrences col m \<longrightarrow> scalar_le m v)
                   \<and> (\<forall>col'. mset (cells col') = mset (cells col)
                          \<longrightarrow> selected_mode col' = Inr (Some m))"
    by blast
  from m pos top both
  show "\<exists>m. selected_mode col = Inr (Some m) \<and> 0 < occurrences col m
            \<and> (\<forall>v. occurrences col v \<le> occurrences col m)
            \<and> ((\<forall>v. occurrences col v = occurrences col m \<longrightarrow> is_num v = is_num m)
                 \<longrightarrow> (\<forall>v. occurrences col v = occurrences col m \<longrightarrow> scalar_le m v)
                   \<and> (\<forall>col'. mset (cells col') = mset (cells col)
                          \<longrightarrow> selected_mode col' = Inr (Some m)))"
    by (intro exI[of _ m] conjI)
next
  show "\<forall>w. (\<forall>v. v \<noteq> w \<longrightarrow> occurrences col v < occurrences col w)
              \<longrightarrow> selected_mode col = Inr (Some w)"
  proof (intro allI impI)
    fix w assume strict: "\<forall>v. v \<noteq> w \<longrightarrow> occurrences col v < occurrences col w"
    from mode_characterised[OF assms] obtain m where
      m: "selected_mode col = Inr (Some m)" and top: "\<forall>v. occurrences col v \<le> occurrences col m"
      by blast
    have "m = w"
    proof (rule ccontr)
      assume "m \<noteq> w"
      with strict have "occurrences col m < occurrences col w" by simp
      with top show False by (simp add: not_less[symmetric])
    qed
    with m show "selected_mode col = Inr (Some w)" by simp
  qed
qed


theorem mode_most_frequent_ties_smallest_witness:
  "nonmissing (ObjCol [Some (Str ''b''), Some (Str ''a''), Some (Num 1), Some (Str ''b''), Some (Str ''a'')]) \<noteq> []
   \<and> selected_mode (ObjCol [Some (Str ''b''), Some (Str ''a''), Some (Num 1), Some (Str ''b''), Some (Str ''a'')]) = Inr (Some (Str ''a''))
   \<and> scalar_le (Str ''a'') (Str ''b'')
   \<and> selected_mode (ObjCol [Some (Str ''a''), Some (Num 1), Some (Str ''b''), Some (Str ''a''), Some (Str ''b'')]) = Inr (Some (Str ''a''))
   \<and> nonmissing (NumCol [Some 3, None, Some 1, Some 3]) \<noteq> []
   \<and> selected_mode (NumCol [Some 3, None, Some 1, Some 3]) = Inr (Some (Num 3))"
proof -
  have ne: "nonmissing (ObjCol [Some (Str ''b''), Some (Str ''a''), Some (Num 1), Some (Str ''b''), Some (Str ''a'')]) \<noteq> []" by (simp add: nonmissing_def)
  have ev: "selected_mode (ObjCol [Some (Str ''b''), Some (Str ''a''), Some (Num 1), Some (Str ''b''), Some (Str ''a'')]) = Inr (Some (Str ''a''))"
    by (simp add: selected_mode_def object_mode_def Let_def max_count_def first_seen_def
        sort_modes_def iloc_def)
  have oa: "occurrences (ObjCol [Some (Str ''b''), Some (Str ''a''), Some (Num 1), Some (Str ''b''), Some (Str ''a'')]) (Str ''a'') = 2" by (simp add: occurrences_def)
  have ob: "occurrences (ObjCol [Some (Str ''b''), Some (Str ''a''), Some (Num 1), Some (Str ''b''), Some (Str ''a'')]) (Str ''b'') = 2" by (simp add: occurrences_def)
  have kind: "\<forall>v. occurrences (ObjCol [Some (Str ''b''), Some (Str ''a''), Some (Num 1), Some (Str ''b''), Some (Str ''a'')]) v = occurrences (ObjCol [Some (Str ''b''), Some (Str ''a''), Some (Num 1), Some (Str ''b''), Some (Str ''a'')]) (Str ''a'') \<longrightarrow> is_num v = is_num (Str ''a'')"
  proof (intro allI impI)
    fix v assume e: "occurrences (ObjCol [Some (Str ''b''), Some (Str ''a''), Some (Num 1), Some (Str ''b''), Some (Str ''a'')]) v = occurrences (ObjCol [Some (Str ''b''), Some (Str ''a''), Some (Num 1), Some (Str ''b''), Some (Str ''a'')]) (Str ''a'')"
    show "is_num v = is_num (Str ''a'')"
    proof (cases v)
      case (Num r)
      then have "occurrences (ObjCol [Some (Str ''b''), Some (Str ''a''), Some (Num 1), Some (Str ''b''), Some (Str ''a'')]) v \<le> 1" by (simp add: occurrences_def)
      with e oa show ?thesis by simp
    next
      case (Str t)
      then show ?thesis by simp
    qed
  qed
  from mode_most_frequent_ties_smallest[OF ne] obtain m where
    m: "selected_mode (ObjCol [Some (Str ''b''), Some (Str ''a''), Some (Num 1), Some (Str ''b''), Some (Str ''a'')]) = Inr (Some m)" and
    imp: "(\<forall>v. occurrences (ObjCol [Some (Str ''b''), Some (Str ''a''), Some (Num 1), Some (Str ''b''), Some (Str ''a'')]) v = occurrences (ObjCol [Some (Str ''b''), Some (Str ''a''), Some (Num 1), Some (Str ''b''), Some (Str ''a'')]) m \<longrightarrow> is_num v = is_num m)
          \<longrightarrow> (\<forall>v. occurrences (ObjCol [Some (Str ''b''), Some (Str ''a''), Some (Num 1), Some (Str ''b''), Some (Str ''a'')]) v = occurrences (ObjCol [Some (Str ''b''), Some (Str ''a''), Some (Num 1), Some (Str ''b''), Some (Str ''a'')]) m \<longrightarrow> scalar_le m v)
            \<and> (\<forall>col'. mset (cells col') = mset (cells (ObjCol [Some (Str ''b''), Some (Str ''a''), Some (Num 1), Some (Str ''b''), Some (Str ''a'')])) \<longrightarrow> selected_mode col' = Inr (Some m))"
    by blast
  from m ev have ma: "m = Str ''a''" by simp
  from imp kind have
    least: "\<forall>v. occurrences (ObjCol [Some (Str ''b''), Some (Str ''a''), Some (Num 1), Some (Str ''b''), Some (Str ''a'')]) v = occurrences (ObjCol [Some (Str ''b''), Some (Str ''a''), Some (Num 1), Some (Str ''b''), Some (Str ''a'')]) (Str ''a'') \<longrightarrow> scalar_le (Str ''a'') v" and
    perm: "\<forall>col'. mset (cells col') = mset (cells (ObjCol [Some (Str ''b''), Some (Str ''a''), Some (Num 1), Some (Str ''b''), Some (Str ''a'')])) \<longrightarrow> selected_mode col' = Inr (Some (Str ''a''))"
    unfolding ma by blast+
  from least oa ob have le: "scalar_le (Str ''a'') (Str ''b'')" by simp
  have "mset (cells (ObjCol [Some (Str ''a''), Some (Num 1), Some (Str ''b''), Some (Str ''a''), Some (Str ''b'')])) = mset (cells (ObjCol [Some (Str ''b''), Some (Str ''a''), Some (Num 1), Some (Str ''b''), Some (Str ''a'')]))" by simp
  with perm have pm: "selected_mode (ObjCol [Some (Str ''a''), Some (Num 1), Some (Str ''b''), Some (Str ''a''), Some (Str ''b'')]) = Inr (Some (Str ''a''))" by blast
  have nn: "nonmissing (NumCol [Some 3, None, Some 1, Some 3]) \<noteq> []" by (simp add: nonmissing_def)
  have strict: "\<forall>v. v \<noteq> Num 3 \<longrightarrow> occurrences (NumCol [Some 3, None, Some 1, Some 3]) v < occurrences (NumCol [Some 3, None, Some 1, Some 3]) (Num 3)"
  proof (intro allI impI)
    fix v :: scalar assume "v \<noteq> Num 3"
    then show "occurrences (NumCol [Some 3, None, Some 1, Some 3]) v < occurrences (NumCol [Some 3, None, Some 1, Some 3]) (Num 3)"
      by (cases v) (auto simp: occurrences_def)
  qed
  from mode_most_frequent_ties_smallest[OF nn] have
    "\<forall>w. (\<forall>v. v \<noteq> w \<longrightarrow> occurrences (NumCol [Some 3, None, Some 1, Some 3]) v < occurrences (NumCol [Some 3, None, Some 1, Some 3]) w)
          \<longrightarrow> selected_mode (NumCol [Some 3, None, Some 1, Some 3]) = Inr (Some w)"
    by (rule conjunct2)
  with strict have sn: "selected_mode (NumCol [Some 3, None, Some 1, Some 3]) = Inr (Some (Num 3))" by blast
  from ne ev le pm nn sn show ?thesis by (intro conjI)
qed

text \<open>
  Claim C1 as it is stated fails: in the column 2, 2, 1, 1 both values occur twice, the
  value met first is 2, and the mode computed is 1.
\<close>

theorem mode_first_encountered_counterexample:
  "occurrences (NumCol [Some 2, Some 2, Some 1, Some 1]) (Num 2) = 2
   \<and> occurrences (NumCol [Some 2, Some 2, Some 1, Some 1]) (Num 1) = 2
   \<and> spec_first_encountered_mode (NumCol [Some 2, Some 2, Some 1, Some 1]) = Some (Num 2)
   \<and> selected_mode (NumCol [Some 2, Some 2, Some 1, Some 1]) = Inr (Some (Num 1))"
  by (simp add: occurrences_def spec_first_encountered_mode_def nonmissing_def max_count_def
      selected_mode_def series_mode_def iloc_def)

text \<open>
  Claim C4. Computing the mode never raises, and for a column that is empty or holds
  missing cells only the mode is \<open>None\<close>.
\<close>

theorem mode_of_empty_column_is_none:
  "(\<exists>r. selected_mode col = Inr r) \<and> (nonmissing col = [] \<longrightarrow> selected_mode col = Inr None)"
  using selected_mode_total[of col] selected_mode_empty[of col] by blast

theorem mode_of_empty_column_is_none_witness:
  "nonmissing (ObjCol []) = [] \<and> selected_mode (ObjCol []) = Inr None
   \<and> nonmissing (NumCol [None, None]) = [] \<and> selected_mode (NumCol [None, None]) = Inr None"
  using mode_of_empty_column_is_none[of "ObjCol []"] mode_of_empty_column_is_none[of "NumCol [None, None]"]
  by (simp add: nonmissing_def)

section \<open>Properties of the analyser\<close>

lemma mkdir_Inr:
  assumes "mkdir p w = Inr w1"
  shows "files w1 = files w" "dirs w1 = dirs w \<union> set (ancestors_and_self p)"
    "stdout w1 = stdout w" "\<forall>q\<in>set (ancestors_and_self p). files w q = None"
  using assms by (auto simp: mkdir_def split: if_splits)

lemma mkdir_ok:
  assumes "\<forall>q\<in>set (ancestors_and_self p). files w q = None"
  shows "mkdir p w = Inr (w\<lparr>dirs := dirs w \<union> set (ancestors_and_self p)\<rparr>)"
  using assms by (simp add: mkdir_def)

lemma mkdir_Inl: "mkdir p w = Inl e \<Longrightarrow> e = OSError"
  by (auto simp: mkdir_def split: if_splits)

lemma self_in_ancestors: "p \<noteq> [] \<Longrightarrow> p \<in> set (ancestors_and_self p)"
proof -
  assume "p \<noteq> []"
  then have "length p \<in> set [1..<Suc (length p)]" by (cases p) auto
  then have "take (length p) p \<in> set (ancestors_and_self p)"
    unfolding ancestors_and_self_def by (simp only: set_map image_eqI)
  then show ?thesis by simp
qed

lemma mkdir_is_dir: "mkdir p w = Inr w1 \<Longrightarrow> is_dir w1 p"
  using self_in_ancestors[of p] by (cases "p = []") (auto simp: is_dir_def dest: mkdir_Inr(2))

lemma getitem_absent: "column \<notin> fst ` set df \<Longrightarrow> getitem df column = Inl KeyError"
  by (simp add: getitem_def map_of_eq_None_iff[THEN iffD2])




lemma analyse_absent:
  assumes "column \<notin> fst ` set df"
  shows "analyse_dataframe L df column output_dir w =
     (case mkdir output_dir w of Inl e \<Rightarrow> (Inl e, w) | Inr w1 \<Rightarrow> (Inl KeyError, w1))"
  using getitem_absent[OF assms] by (simp add: analyse_dataframe_def split: sum.splits)



text \<open>
  Claim C3. When the column name is no column of the table, the run fails and no file is
  written or changed; the error is the KeyError of \<^verbatim>\<open>df[column]\<close> whenever the output
  directory can be created (when a regular file stands in its way, \<^verbatim>\<open>mkdir\<close> has raised
  before the column is looked up).
\<close>

theorem absent_column_fails_without_artifacts:
  assumes "column \<notin> fst ` set df"
  shows "(\<exists>e. fst (analyse_dataframe L df column output_dir w) = Inl e)
       \<and> ((\<forall>q\<in>set (ancestors_and_self output_dir). files w q = None)
            \<longrightarrow> fst (analyse_dataframe L df column output_dir w) = Inl KeyError)
       \<and> files (snd (analyse_dataframe L df column output_dir w)) = files w"
proof (cases "mkdir output_dir w")
  case (Inl e)
  then have "\<exists>q\<in>set (ancestors_and_self output_dir). files w q \<noteq> None"
    by (auto simp: mkdir_def split: if_splits)
  with Inl show ?thesis by (auto simp add: analyse_absent[OF assms])
next
  case (Inr w1)
  then show ?thesis by (simp add: analyse_absent[OF assms] mkdir_Inr(1)[OF Inr])
qed

theorem absent_column_fails_without_artifacts_witness:
  "''b'' \<notin> fst ` set [(''a'', NumCol [Some 1])]
   \<and> fst (analyse_dataframe
        \<lparr>fmt_values = (\<lambda>s i. ''  1''), describe_object = (\<lambda>c. ''count 1''), str_num = (\<lambda>r. ''1''), draw = (\<lambda>f. Inr []), parse_csv = (\<lambda>b. Inr []), parse_excel = (\<lambda>b. Inr [])\<rparr>
        [(''a'', NumCol [Some 1])] ''b'' [''out'']
        \<lparr>dirs = {}, files = Map.empty, stdout = []\<rparr>) = Inl KeyError
   \<and> files (snd (analyse_dataframe
        \<lparr>fmt_values = (\<lambda>s i. ''  1''), describe_object = (\<lambda>c. ''count 1''), str_num = (\<lambda>r. ''1''), draw = (\<lambda>f. Inr []), parse_csv = (\<lambda>b. Inr []), parse_excel = (\<lambda>b. Inr [])\<rparr>
        [(''a'', NumCol [Some 1])] ''b'' [''out'']
        \<lparr>dirs = {}, files = Map.empty, stdout = []\<rparr>)) = Map.empty"
proof -
  have a: "''b'' \<notin> fst ` set [(''a'', NumCol [Some 1])]" by simp
  have b: "\<forall>q\<in>set (ancestors_and_self [''out'']). files \<lparr>dirs = {}, files = Map.empty, stdout = []\<rparr> q = None"
    by simp
  from absent_column_fails_without_artifacts[OF a, of
      "\<lparr>fmt_values = (\<lambda>s i. ''  1''), describe_object = (\<lambda>c. ''count 1''), str_num = (\<lambda>r. ''1''), draw = (\<lambda>f. Inr []), parse_csv = (\<lambda>b. Inr []), parse_excel = (\<lambda>b. Inr [])\<rparr>"
      "[''out'']" "\<lparr>dirs = {}, files = Map.empty, stdout = []\<rparr>"] a b
  show ?thesis by simp
qed

text \<open>
  Claim C9. The output directory is created before the column is looked up: when the
  column name is no column of the table and no regular file stands in the way of the
  directory, the run fails with KeyError, the output directory and its parents exist
  afterwards, and no file has been written.
\<close>

theorem directory_created_before_column_check:
  assumes "column \<notin> fst ` set df"
    and "\<forall>q\<in>set (ancestors_and_self output_dir). files w q = None"
  shows "fst (analyse_dataframe L df column output_dir w) = Inl KeyError
       \<and> is_dir (snd (analyse_dataframe L df column output_dir w)) output_dir
       \<and> dirs (snd (analyse_dataframe L df column output_dir w))
           = dirs w \<union> set (ancestors_and_self output_dir)
       \<and> files (snd (analyse_dataframe L df column output_dir w)) = files w"
proof -
  let ?w1 = "w\<lparr>dirs := dirs w \<union> set (ancestors_and_self output_dir)\<rparr>"
  have m: "mkdir output_dir w = Inr ?w1" using assms(2) by (rule mkdir_ok)
  have r: "analyse_dataframe L df column output_dir w = (Inl KeyError, ?w1)"
    by (simp add: analyse_absent[OF assms(1)] m)
  have "is_dir ?w1 output_dir" using m by (rule mkdir_is_dir)
  with r show ?thesis by simp
qed

theorem directory_created_before_column_check_witness:
  "''z'' \<notin> fst ` set [(''a'', ObjCol [Some (Str ''x'')])]
   \<and> \<not> is_dir \<lparr>dirs = {}, files = Map.empty, stdout = []\<rparr> [''res'', ''run1'']
   \<and> fst (analyse_dataframe
        \<lparr>fmt_values = (\<lambda>s i. ''  1''), describe_object = (\<lambda>c. ''count 1''), str_num = (\<lambda>r. ''1''), draw = (\<lambda>f. Inr []), parse_csv = (\<lambda>b. Inr []), parse_excel = (\<lambda>b. Inr [])\<rparr>
        [(''a'', ObjCol [Some (Str ''x'')])] ''z'' [''res'', ''run1'']
        \<lparr>dirs = {}, files = Map.empty, stdout = []\<rparr>) = Inl KeyError
   \<and> is_dir (snd (analyse_dataframe
        \<lparr>fmt_values = (\<lambda>s i. ''  1''), describe_object = (\<lambda>c. ''count 1''), str_num = (\<lambda>r. ''1''), draw = (\<lambda>f. Inr []), parse_csv = (\<lambda>b. Inr []), parse_excel = (\<lambda>b. Inr [])\<rparr>
        [(''a'', ObjCol [Some (Str ''x'')])] ''z'' [''res'', ''run1'']
        \<lparr>dirs = {}, files = Map.empty, stdout = []\<rparr>)) [''res'', ''run1'']"
proof -
  have a: "''z'' \<notin> fst ` set [(''a'', ObjCol [Some (Str ''x'')])]" by simp
  have b: "\<forall>q\<in>set (ancestors_and_self [''res'', ''run1'']). files \<lparr>dirs = {}, files = Map.empty, stdout = []\<rparr> q = None"
    by simp
  have c: "\<not> is_dir \<lparr>dirs = {}, files = Map.empty, stdout = []\<rparr> [''res'', ''run1'']"
    by (simp add: is_dir_def)
  from directory_created_before_column_check[OF a b, of
      "\<lparr>fmt_values = (\<lambda>s i. ''  1''), describe_object = (\<lambda>c. ''count 1''), str_num = (\<lambda>r. ''1''), draw = (\<lambda>f. Inr []), parse_csv = (\<lambda>b. Inr []), parse_excel = (\<lambda>b. Inr [])\<rparr>"] a b c
  show ?thesis by simp
qed
















section \<open>Properties of the summary\<close>

lemma length_dropna: "length (dropna c) = length (filter (\<lambda>x. x \<noteq> None) c)"
  by (induction c rule: dropna.induct) auto

lemma length_dropna_full: "None \<notin> set c \<Longrightarrow> length (dropna c) = length c"
  by (induction c rule: dropna.induct) auto

lemma dropna_Some: "dropna (map Some xs) = xs"
  by (induction xs) auto

lemma dropna_append: "dropna (xs @ ys) = dropna xs @ dropna ys"
  by (induction xs rule: dropna.induct) auto

lemma describe_dropna: "dropna c = dropna c' \<Longrightarrow> describe c = describe c'"
  by (simp add: describe_def)

lemma describe_count: "map_of (describe c) ''count'' = Some (Some (Num (real (length (dropna c)))))"
  by (simp add: describe_def Let_def)

text \<open>
  Claim C7. The count of the summary is the number of cells that are not missing, hence
  the length of a column without missing cells; the whole summary is that of the column
  with its missing cells removed, and a missing cell added anywhere leaves it unchanged.
\<close>

theorem describe_ignores_missing:
  "map_of (describe c) ''count'' = Some (Some (Num (real (length (filter (\<lambda>x. x \<noteq> None) c)))))
   \<and> (None \<notin> set c \<longrightarrow> map_of (describe c) ''count'' = Some (Some (Num (real (length c)))))
   \<and> describe c = describe (map Some (dropna c))
   \<and> describe (xs @ None # ys) = describe (xs @ ys)"
proof (intro conjI impI)
  show "map_of (describe c) ''count'' = Some (Some (Num (real (length (filter (\<lambda>x. x \<noteq> None) c)))))"
    by (simp only: describe_count length_dropna)
  show "map_of (describe c) ''count'' = Some (Some (Num (real (length c))))" if "None \<notin> set c"
  proof -
    from that have "length (dropna c) = length c" by (rule length_dropna_full)
    then show ?thesis by (simp only: describe_count)
  qed
  show "describe c = describe (map Some (dropna c))"
    by (rule describe_dropna) (simp add: dropna_Some)
  show "describe (xs @ None # ys) = describe (xs @ ys)"
    by (rule describe_dropna) (simp add: dropna_append)
qed

theorem describe_ignores_missing_witness:
  "None \<notin> set [Some 4, Some 7, Some (5::real)]
   \<and> map_of (describe [Some 4, Some 7, Some 5]) ''count'' = Some (Some (Num 3))
   \<and> map_of (describe [Some 4, None, Some 7, None]) ''count'' = Some (Some (Num 2))
   \<and> describe [Some 4, None, Some 7] = describe [Some 4, Some 7]"
proof -
  have a: "None \<notin> set [Some 4, Some 7, Some (5::real)]" by simp
  note m1 = describe_ignores_missing[of "[Some 4, Some 7, Some 5]" "[]" "[]"]
  note m2 = describe_ignores_missing[of "[Some 4, None, Some 7, None]" "[]" "[]"]
  note m3 = describe_ignores_missing[of "[]" "[Some 4]" "[Some 7]"]
  from m1 a have b: "map_of (describe [Some 4, Some 7, Some 5]) ''count'' = Some (Some (Num 3))"
    by simp
  from m2[THEN conjunct1]
  have c: "map_of (describe [Some 4, None, Some 7, None]) ''count'' = Some (Some (Num 2))"
    by simp
  from m3[THEN conjunct2, THEN conjunct2, THEN conjunct2]
  have d: "describe [Some 4, None, Some 7] = describe [Some 4, Some 7]" by simp
  from a b c d show ?thesis by (intro conjI)
qed

text \<open>
  Claim C8. For the column 1, 2, 3, 4, 5 the summary has mean 3, min 1, max 5 and
  count 5.
\<close>

theorem describe_one_to_five:
  "map_of (describe [Some 1, Some 2, Some 3, Some 4, Some 5]) ''mean'' = Some (Some (Num 3))
   \<and> map_of (describe [Some 1, Some 2, Some 3, Some 4, Some 5]) ''min'' = Some (Some (Num 1))
   \<and> map_of (describe [Some 1, Some 2, Some 3, Some 4, Some 5]) ''max'' = Some (Some (Num 5))
   \<and> map_of (describe [Some 1, Some 2, Some 3, Some 4, Some 5]) ''count'' = Some (Some (Num 5))"
proof -
  have d: "dropna [Some 1, Some 2, Some 3, Some 4, Some (5::real)] = [1, 2, 3, 4, 5]" by simp
  have me: "mean [1, 2, 3, 4, 5] = Some 3" by (simp add: mean_def)
  have mi: "minimum [1, 2, 3, 4, 5] = Some 1" by (simp add: minimum_def)
  have ma: "maximum [1, 2, 3, 4, 5] = Some 5" by (simp add: maximum_def)
  show ?thesis unfolding describe_def Let_def d me mi ma by simp
qed

section \<open>Properties of the loader\<close>

lemma rfind_csv: "rfind ''table.csv'' (CHR ''.'') = 5"
  by (simp add: rfind_def)

lemma suffix_csv: "lower (path_suffix [''data'', ''table.csv'']) = ''.csv''"
  by (simp add: lower_def lower_char_def path_suffix_def path_name_def rfind_csv Let_def)

lemma suffix_xlsx: "lower (path_suffix [''book.xlsx'']) \<in> {''.xls'', ''.xlsx''}"
  by code_simp

text \<open>
  Claim C10. For a path whose suffix is neither \<^verbatim>\<open>.xls\<close> nor \<^verbatim>\<open>.xlsx\<close> the loader does not
  look at the sheet name: any two sheet arguments give the same result.
\<close>

theorem csv_load_ignores_sheet:
  assumes "lower (path_suffix data_path) \<notin> {''.xls'', ''.xlsx''}"
  shows "load_dataframe L w data_path s1 = load_dataframe L w data_path s2"
  using assms by (simp add: load_dataframe_def)

theorem csv_load_ignores_sheet_witness:
  "lower (path_suffix [''data'', ''table.csv'']) \<notin> {''.xls'', ''.xlsx''}
   \<and> load_dataframe
        \<lparr>fmt_values = (\<lambda>s i. '' 0''), describe_object = (\<lambda>c. []), str_num = (\<lambda>r. ''0''), draw = (\<lambda>f. Inl RenderError), parse_csv = (\<lambda>b. Inr [(''a'', NumCol [Some 1]), (''b'', ObjCol [Some (Str ''u'')])]), parse_excel = (\<lambda>b. Inl ParserError)\<rparr>
        \<lparr>dirs = {[''data'']}, files = [[''data'', ''table.csv''] \<mapsto> ''a,b''], stdout = []\<rparr> [''data'', ''table.csv''] None
     = load_dataframe
        \<lparr>fmt_values = (\<lambda>s i. '' 0''), describe_object = (\<lambda>c. []), str_num = (\<lambda>r. ''0''), draw = (\<lambda>f. Inl RenderError), parse_csv = (\<lambda>b. Inr [(''a'', NumCol [Some 1]), (''b'', ObjCol [Some (Str ''u'')])]), parse_excel = (\<lambda>b. Inl ParserError)\<rparr>
        \<lparr>dirs = {[''data'']}, files = [[''data'', ''table.csv''] \<mapsto> ''a,b''], stdout = []\<rparr> [''data'', ''table.csv''] (Some ''Sheet2'')"
proof -
  have h: "lower (path_suffix [''data'', ''table.csv'']) \<notin> {''.xls'', ''.xlsx''}"
    by (simp add: suffix_csv)
  from csv_load_ignores_sheet[OF h] h show ?thesis by blast
qed

text \<open>
  Claim C2, at a workbook of two sheets. With a sheet name the loader returns the table of
  that sheet only. With no sheet name it passes \<^verbatim>\<open>sheet_name=None\<close> to \<^verbatim>\<open>pd.read_excel\<close>
  and returns the dict of all the sheets, not the table of the first one, although the
  function is declared and documented to return a DataFrame.
\<close>

theorem excel_without_sheet_returns_all_sheets:
  "load_dataframe
      \<lparr>fmt_values = (\<lambda>s i. '' 0''), describe_object = (\<lambda>c. []), str_num = (\<lambda>r. ''0''), draw = (\<lambda>f. Inl RenderError), parse_csv = (\<lambda>b. Inl ParserError), parse_excel = (\<lambda>b. Inr [(''Sheet1'', [(''a'', NumCol [Some 1])]), (''Sheet2'', [(''a'', NumCol [Some 2])])])\<rparr>
      \<lparr>dirs = {}, files = [[''book.xlsx''] \<mapsto> ''PK''], stdout = []\<rparr> [''book.xlsx''] None
     = Inr (SheetDict [(''Sheet1'', [(''a'', NumCol [Some 1])]), (''Sheet2'', [(''a'', NumCol [Some 2])])])
   \<and> load_dataframe
      \<lparr>fmt_values = (\<lambda>s i. '' 0''), describe_object = (\<lambda>c. []), str_num = (\<lambda>r. ''0''), draw = (\<lambda>f. Inl RenderError), parse_csv = (\<lambda>b. Inl ParserError), parse_excel = (\<lambda>b. Inr [(''Sheet1'', [(''a'', NumCol [Some 1])]), (''Sheet2'', [(''a'', NumCol [Some 2])])])\<rparr>
      \<lparr>dirs = {}, files = [[''book.xlsx''] \<mapsto> ''PK''], stdout = []\<rparr> [''book.xlsx''] (Some ''Sheet2'')
     = Inr (Frame [(''a'', NumCol [Some 2])])"
  using suffix_xlsx by (simp add: load_dataframe_def read_excel_def read_bytes_def is_dir_def)

end
